theory Spec2Isabelle
  imports Complex_Main "HOL-Library.Multiset"
begin

section \<open>Transverse: the file-translation workflow of script.js\<close>

text \<open>
  The development embeds the client-side upload / page-selection / translation code of
  \<^verbatim>\<open>src/script.js\<close>. The module-level variables of the script and the parts of the
  browser it reads or writes are the fields of one record, passed through every function.

  JavaScript strings that carry data (user input, content types, response texts) are
  sequences of UTF-16 code units, here \<open>nat list\<close>; the fixed texts of the script
  (notification messages, form field names, URLs) are written as \<open>string\<close> literals.
  Page numbers and page counts held in the state are \<open>int\<close>: they are integers below
  \<open>2^53\<close>, which doubles hold exactly. The numbers \<open>parseInt\<close> reads from user input
  are not bounded, so inside \<open>parsePageInput\<close> numbers are integer-valued doubles
  (\<open>jsnum\<close>) with the rounding of IEEE 754 written out; \<open>NaN\<close> is \<open>None\<close>. Arrays are
  lists of any length.
\<close>

subsection \<open>Values\<close>

type_synonym jsstring = "nat list"

definition utf16 :: "string \<Rightarrow> jsstring" where
  "utf16 s = map of_char s"

text \<open>A parsed JSON value. An object lists its own properties, each key once. A property
  read that yields \<open>undefined\<close> is \<open>None\<close>.\<close>

datatype json =
    JNull
  | JBool bool
  | JNum rat
  | JStr jsstring
  | JArr "json list"
  | JObj "(jsstring \<times> json) list"

type_synonym jsvalue = "json option"

fun truthy :: "jsvalue \<Rightarrow> bool" where
  "truthy None = False"
| "truthy (Some JNull) = False"
| "truthy (Some (JBool b)) = b"
| "truthy (Some (JNum r)) = (r \<noteq> 0)"
| "truthy (Some (JStr s)) = (s \<noteq> [])"
| "truthy (Some (JArr _)) = True"
| "truthy (Some (JObj _)) = True"

text \<open>\<open>data.key\<close> for one of the keys the script reads (\<open>success\<close>, \<open>download_url\<close>,
  \<open>translated_pages\<close>, \<open>error\<close>): only an object can have it.\<close>

fun get_prop :: "json \<Rightarrow> string \<Rightarrow> jsvalue" where
  "get_prop (JObj kvs) k = map_of kvs (utf16 k)"
| "get_prop _ k = None"

subsection \<open>Files, requests, notifications\<close>

text \<open>A browser \<open>File\<close>: \<open>file.size\<close> is the length of the bytes.\<close>

record js_file =
  file_name :: jsstring
  file_type :: jsstring
  file_bytes :: "nat list"

datatype form_value = FileValue js_file | TextValue jsstring

text \<open>A request handed to \<open>xhr.send\<close>: the arguments of \<open>xhr.open\<close>, \<open>xhr.timeout\<close> and
  the entries of the \<open>FormData\<close> in the order they were appended.\<close>

record request =
  req_method :: string
  req_url :: jsstring
  req_timeout :: nat
  req_body :: "(string \<times> form_value) list"

datatype severity = Success | Warning | Error | Info

text \<open>The message of a notification. A template literal keeps the values it interpolates
  as arguments, unrendered.\<close>

datatype message =
    Literal string
  | TranslationFailed jsvalue
      \<comment> \<open>\<^verbatim>\<open>`Translation failed: ${data.error}`\<close>\<close>
  | SuccessfullyTranslated "jsvalue + nat" jsstring
      \<comment> \<open>\<^verbatim>\<open>`Successfully translated ${data.translated_pages || selectedPages.length} pages
          using Google Gemini 2.5 Flash in ${translationTime}s!`\<close>\<close>
  | InvalidResponseFormat jsstring
      \<comment> \<open>\<^verbatim>\<open>`Translation failed: Invalid response format - ${xhr.responseText}`\<close>\<close>
  | HttpFailure nat jsstring
      \<comment> \<open>\<^verbatim>\<open>`Translation failed: HTTP ${xhr.status} - ${xhr.responseText}`\<close>\<close>

text \<open>The upload response's \<open>file_info\<close>; \<open>pages\<close> is \<open>None\<close> when the field is absent.
  The page count is taken to be a JSON integer.\<close>

record file_info =
  extension :: jsstring
  pages :: "int option"

record upload_data =
  data_file_info :: file_info

text \<open>What \<open>showFileTranslationSuccess\<close> writes into the \<open>fileTranslationOutput\<close> element:
  the target language and the elapsed time of the success panel with its download button.\<close>

datatype output_panel = Hidden | DownloadPanel jsstring jsstring

subsection \<open>The session state\<close>

text \<open>
  The first six fields are the globals of script.js (lines 573-580). The others are the
  environment: the notifications shown so far (each call of \<open>showNotification\<close>), the
  requests sent so far (each call of \<open>xhr.send\<close>), the files held by the \<open>fileInput\<close>
  element (empty also when there is no such element), the text of the \<open>timeEstimate\<close>
  element and the content of the \<open>fileTranslationOutput\<close> element (\<open>None\<close> when the
  element does not exist), the \<open>loading\<close> class of the translate button, and the
  visibility of the upload loading screen.
  Elements the script dereferences without a check (\<open>translateFileBtn\<close>,
  \<open>fileTargetLanguage\<close>, \<open>fileUploadLoading\<close>) are taken to exist.
\<close>

record session =
  currentFileInfo :: "file_info option"
  translatedPdfDownloadUrl :: jsvalue
  selectedPages :: "int list"
  currentFileData :: "upload_data option"
  originalUploadedFile :: "js_file option"
  notifications :: "(message \<times> severity) list"
  requests :: "request list"
  fileInputFiles :: "js_file list"
  timeEstimate :: "string option"
  fileTranslationOutput :: "output_panel option"
  translateBtnLoading :: bool
  fileUploadLoading :: bool

definition showNotification :: "message \<Rightarrow> severity \<Rightarrow> session \<Rightarrow> session" where
  "showNotification m t s = s\<lparr>notifications := notifications s @ [(m, t)]\<rparr>"

subsection \<open>Upload\<close>

definition allowedTypes :: "jsstring list" where
  "allowedTypes = map utf16
     [''text/plain'',
      ''application/pdf'',
      ''application/vnd.ms-xpsdocument'',
      ''application/oxps'',
      ''application/epub+zip'',
      ''application/x-mobipocket-ebook'',
      ''application/x-fictionbook+xml'',
      ''text/xml'',
      ''application/vnd.comicbook+zip'',
      ''application/zip'',
      ''image/svg+xml'',
      ''image/jpeg'',
      ''image/png'',
      ''image/bmp'',
      ''image/gif'',
      ''image/tiff'',
      ''image/x-portable-anymap'',
      ''image/x-portable-graymap'',
      ''image/x-portable-bitmap'',
      ''image/x-portable-pixmap'',
      ''image/x-portable-arbitrarymap'',
      ''image/vnd.ms-photo'',
      ''image/jxr'',
      ''image/jp2'',
      ''image/jpx'',
      ''image/vnd.adobe.photoshop'',
      ''application/octet-stream'']"

definition showFileUploadLoading :: "session \<Rightarrow> session" where
  "showFileUploadLoading s = s\<lparr>fileUploadLoading := True\<rparr>"

text \<open>\<open>uploadFileToServer\<close> up to \<open>xhr.send\<close>; its handlers run later, on the response.\<close>

definition uploadFileToServer :: "js_file \<Rightarrow> session \<Rightarrow> session" where
  "uploadFileToServer file s =
     (let formData = [(''file'', FileValue file)]
      in s\<lparr>requests := requests s @
            [\<lparr>req_method = ''POST'', req_url = utf16 ''http://127.0.0.1:8000/api/upload/'',
              req_timeout = 300000, req_body = formData\<rparr>]\<rparr>)"

definition handleFileUpload :: "js_file \<Rightarrow> session \<Rightarrow> session" where
  "handleFileUpload file s0 =
     (let s = s0\<lparr>originalUploadedFile := Some file\<rparr>
      in if file_type file \<notin> set allowedTypes
         then showNotification
                (Literal ''Unsupported file type. Please upload supported document or image formats.'')
                Error s
         else uploadFileToServer file (showFileUploadLoading s))"

subsection \<open>Built-ins of the language\<close>

text \<open>\<open>Array.prototype.indexOf\<close>: the index of the first occurrence, \<open>-1\<close> when there is
  none. \<open>splice(index, 1)\<close> is only called with \<open>index > -1\<close> and removes the element there.\<close>

fun indexOf :: "int list \<Rightarrow> int \<Rightarrow> int" where
  "indexOf [] x = -1"
| "indexOf (y # ys) x =
     (if y = x then 0 else (let i = indexOf ys x in if i = -1 then -1 else i + 1))"

definition splice1 :: "int \<Rightarrow> int list \<Rightarrow> int list" where
  "splice1 index xs = take (nat index) xs @ drop (nat index + 1) xs"

text \<open>White space and line terminators of ECMAScript, as \<open>String.prototype.trim\<close> and
  \<open>parseInt\<close> strip them: TAB, LF, VT, FF, CR, SP, NBSP, U+1680, U+2000..U+200A, U+2028,
  U+2029, U+202F, U+205F, U+3000, U+FEFF.\<close>

definition isWhiteSpace :: "nat \<Rightarrow> bool" where
  "isWhiteSpace c \<longleftrightarrow>
     c \<in> {9, 10, 11, 12, 13, 32, 160, 5760, 8232, 8233, 8239, 8287, 12288, 65279}
     \<or> (8192 \<le> c \<and> c \<le> 8202)"

definition trim :: "jsstring \<Rightarrow> jsstring" where
  "trim s = rev (dropWhile isWhiteSpace (rev (dropWhile isWhiteSpace s)))"

text \<open>\<open>str.split(sep)\<close> for a separator of one code unit: always at least one piece.\<close>

fun split_on :: "nat \<Rightarrow> jsstring \<Rightarrow> jsstring list" where
  "split_on sep [] = [[]]"
| "split_on sep (c # cs) =
     (if c = sep then [] # split_on sep cs
      else (case split_on sep cs of
              [] \<Rightarrow> [[c]]
            | piece # pieces \<Rightarrow> (c # piece) # pieces))"

text \<open>\<open>arr.join(sep)\<close> on strings.\<close>

fun join :: "jsstring list \<Rightarrow> jsstring \<Rightarrow> jsstring" where
  "join [] sep = []"
| "join [x] sep = x"
| "join (x # y # ys) sep = x @ sep @ join (y # ys) sep"

text \<open>The value of a code unit as a digit in radix \<open>R\<close>: \<open>0-9\<close>, \<open>a-z\<close>, \<open>A-Z\<close>.\<close>

definition radixDigit :: "nat \<Rightarrow> nat \<Rightarrow> nat option" where
  "radixDigit R c =
     (let d = (if 48 \<le> c \<and> c \<le> 57 then Some (c - 48)
               else if 97 \<le> c \<and> c \<le> 122 then Some (c - 87)
               else if 65 \<le> c \<and> c \<le> 90 then Some (c - 55)
               else None)
      in case d of None \<Rightarrow> None | Some v \<Rightarrow> if v < R then Some v else None)"

fun leadingDigits :: "nat \<Rightarrow> jsstring \<Rightarrow> nat list" where
  "leadingDigits R [] = []"
| "leadingDigits R (c # cs) =
     (case radixDigit R c of None \<Rightarrow> [] | Some d \<Rightarrow> d # leadingDigits R cs)"

text \<open>
  An integer-valued Number: a double whose value is an integer, or an infinity. Zero has
  one representation (\<open>+0\<close> and \<open>-0\<close> compare equal everywhere below).
\<close>

datatype jsnum = Fin int | PosInf | NegInf

text \<open>The number of binary digits of a natural number.\<close>

fun bitlen :: "nat \<Rightarrow> nat" where
  "bitlen n = (if n = 0 then 0 else Suc (bitlen (n div 2)))"

declare bitlen.simps [simp del]

text \<open>
  The double nearest to a natural number: 53 significant bits, a tie goes to the even
  significand (IEEE 754 round to nearest, ties to even); from \<open>2^1024\<close> on the result
  is \<open>Infinity\<close>. Numbers below \<open>2^53\<close> are kept as they are.
\<close>

definition roundToDouble :: "nat \<Rightarrow> nat" where
  "roundToDouble n =
     (let e = bitlen n - 53;
          q = n div 2 ^ e;
          r = n mod 2 ^ e;
          q' = (if 2 * r > 2 ^ e \<or> (2 * r = 2 ^ e \<and> odd q) then q + 1 else q)
      in q' * 2 ^ e)"

definition doubleOfNat :: "nat \<Rightarrow> jsnum" where
  "doubleOfNat n = (let m = roundToDouble n in if m < 2 ^ 1024 then Fin (int m) else PosInf)"

fun js_negate :: "jsnum \<Rightarrow> jsnum" where
  "js_negate (Fin i) = Fin (- i)"
| "js_negate PosInf = NegInf"
| "js_negate NegInf = PosInf"

text \<open>The double nearest to an integer.\<close>

definition doubleOfInt :: "int \<Rightarrow> jsnum" where
  "doubleOfInt i = (if 0 \<le> i then doubleOfNat (nat i) else js_negate (doubleOfNat (nat (- i))))"

text \<open>\<open>i++\<close>: the double nearest to \<open>i + 1\<close>.\<close>

fun js_inc :: "jsnum \<Rightarrow> jsnum" where
  "js_inc (Fin i) = doubleOfInt (i + 1)"
| "js_inc PosInf = PosInf"
| "js_inc NegInf = NegInf"

text \<open>\<open>a <= b\<close>\<close>

fun js_le :: "jsnum \<Rightarrow> jsnum \<Rightarrow> bool" where
  "js_le (Fin a) (Fin b) = (a \<le> b)"
| "js_le NegInf _ = True"
| "js_le _ PosInf = True"
| "js_le (Fin a) NegInf = False"
| "js_le PosInf (Fin b) = False"
| "js_le PosInf NegInf = False"

text \<open>
  \<open>parseInt(string)\<close> without a radix (ECMAScript 19.2.5): skip leading white space, read
  a sign, take radix 16 after a \<open>0x\<close> or \<open>0X\<close> prefix and radix 10 otherwise, read the
  longest run of digits; \<open>NaN\<close> when the run is empty. What follows the digits is ignored.
  The result is the double nearest to the signed value of the digits (beyond 20
  significant decimal digits ECMAScript allows an approximation of that value).
\<close>

definition parseInt :: "jsstring \<Rightarrow> jsnum option" where
  "parseInt string =
     (let S = dropWhile isWhiteSpace string;
          sign = (case S of c # _ \<Rightarrow> if c = 45 then - 1 else 1 | [] \<Rightarrow> (1::int));
          S1 = (case S of c # cs \<Rightarrow> if c = 43 \<or> c = 45 then cs else S | [] \<Rightarrow> S);
          hex = (take 2 S1 = [48, 120] \<or> take 2 S1 = [48, 88]);
          R = (if hex then 16 else 10);
          S2 = (if hex then drop 2 S1 else S1);
          Z = leadingDigits R S2
      in if Z = [] then None
         else Some (doubleOfInt (sign * int (foldl (\<lambda>acc d. acc * R + d) 0 Z))))"

text \<open>\<open>Number.prototype.toString\<close> on an integer: decimal digits, a minus sign in front
  of a negative one.\<close>

fun decimal :: "nat \<Rightarrow> string" where
  "decimal n =
     (if n < 10 then [char_of (48 + n)]
      else decimal (n div 10) @ [char_of (48 + n mod 10)])"

definition numberToString :: "int \<Rightarrow> string" where
  "numberToString i = (if i < 0 then ''-'' @ decimal (nat (- i)) else decimal (nat i))"

text \<open>\<open>Math.round\<close> rounds to the nearest integer, a half upwards; \<open>x % y\<close> takes the sign
  of \<open>x\<close> (\<open>y\<close> is never zero here). The script applies them to multiples of one half,
  which doubles hold exactly, so rationals compute the same values.\<close>

definition Math_round :: "rat \<Rightarrow> int" where
  "Math_round x = \<lfloor>x + 1 / 2\<rfloor>"

definition Math_floor :: "rat \<Rightarrow> int" where
  "Math_floor x = \<lfloor>x\<rfloor>"

definition js_rem :: "rat \<Rightarrow> rat \<Rightarrow> rat" where
  "js_rem x y = x - y * of_int (if x / y < 0 then \<lceil>x / y\<rceil> else \<lfloor>x / y\<rfloor>)"

subsection \<open>Page selection\<close>

text \<open>
  \<open>updatePageSelectionUI\<close> and \<open>updateSelectedPagesInfo\<close> only project \<open>selectedPages\<close>
  onto CSS classes and labels that nothing reads back; they are left out.
  \<open>updateTimeEstimate\<close> receives the selection as its argument.
\<close>

definition updateTimeEstimate :: "int list \<Rightarrow> session \<Rightarrow> session" where
  "updateTimeEstimate selectedPages' s =
     (case timeEstimate s of
        None \<Rightarrow> s
      | Some _ \<Rightarrow>
          if length selectedPages' = 0 then s\<lparr>timeEstimate := Some ''--''\<rparr>
          else
            (let avgSecondsPerPage = (9 / 2 :: rat);
                 totalSeconds = of_nat (length selectedPages') * avgSecondsPerPage
             in if totalSeconds < 60
                then s\<lparr>timeEstimate := Some (numberToString (Math_round totalSeconds) @ ''s'')\<rparr>
                else
                  (let minutes = Math_floor (totalSeconds / 60);
                       seconds = Math_round (js_rem totalSeconds 60)
                   in s\<lparr>timeEstimate :=
                          Some (numberToString minutes @ ''m '' @ numberToString seconds @ ''s'')\<rparr>)))"

definition togglePageSelection :: "int \<Rightarrow> session \<Rightarrow> session" where
  "togglePageSelection pageNumber s =
     (let index = indexOf (selectedPages s) pageNumber;
          pushed = (if index > - 1 then splice1 index (selectedPages s)
                    else selectedPages s @ [pageNumber]);
          s' = s\<lparr>selectedPages := sort pushed\<rparr>
      in updateTimeEstimate (selectedPages s') s')"

definition deselectAllPages :: "session \<Rightarrow> session" where
  "deselectAllPages s =
     (let s' = s\<lparr>selectedPages := []\<rparr> in updateTimeEstimate (selectedPages s') s')"

text \<open>\<^verbatim>\<open>if (!newSelectedPages.includes(i)) newSelectedPages.push(i)\<close>\<close>

definition pushNew :: "jsnum list \<Rightarrow> jsnum \<Rightarrow> jsnum list" where
  "pushNew newSelectedPages i =
     (if i \<notin> set newSelectedPages then newSelectedPages @ [i] else newSelectedPages)"

text \<open>
  \<^verbatim>\<open>for (let i = start; i <= end; i++) { if (!...includes(i)) ...push(i) }\<close>, entered
  with \<open>i = start\<close>. The loop need not end: the result is \<open>None\<close> when it runs forever.
\<close>

partial_function (option) rangeLoop :: "jsnum \<Rightarrow> jsnum \<Rightarrow> jsnum list \<Rightarrow> jsnum list option" where
  "rangeLoop i end' newSelectedPages =
     (if js_le i end' then rangeLoop (js_inc i) end' (pushNew newSelectedPages i)
      else Some newSelectedPages)"

text \<open>The body of \<open>parts.forEach\<close>: one comma-separated part, added to the pages collected
  so far. Code unit 45 is the hyphen.\<close>

definition parsePart :: "jsnum list \<Rightarrow> jsstring \<Rightarrow> jsnum list option" where
  "parsePart newSelectedPages part =
     (let trimmed = trim part
      in if 45 \<in> set trimmed then
           (case split_on 45 trimmed of
              [r0, r1] \<Rightarrow>
                (case (parseInt (trim r0), parseInt (trim r1)) of
                   (Some start, Some end') \<Rightarrow>
                     if js_le start end' then rangeLoop start end' newSelectedPages
                     else Some newSelectedPages
                 | _ \<Rightarrow> Some newSelectedPages)
            | _ \<Rightarrow> Some newSelectedPages)
         else
           (case parseInt trimmed of
              Some pageNum \<Rightarrow> Some (pushNew newSelectedPages pageNum)
            | None \<Rightarrow> Some newSelectedPages))"

text \<open>\<open>parts.forEach(...)\<close>: the parts in order; it returns only if every part does.\<close>

fun forEachPart :: "jsnum list \<Rightarrow> jsstring list \<Rightarrow> jsnum list option" where
  "forEachPart newSelectedPages [] = Some newSelectedPages"
| "forEachPart newSelectedPages (part # parts) =
     (case parsePart newSelectedPages part of
        None \<Rightarrow> None
      | Some newSelectedPages' \<Rightarrow> forEachPart newSelectedPages' parts)"

text \<open>The finite numbers of a list, in order.\<close>

fun finiteValues :: "jsnum list \<Rightarrow> int list" where
  "finiteValues [] = []"
| "finiteValues (Fin i # xs) = i # finiteValues xs"
| "finiteValues (_ # xs) = finiteValues xs"

text \<open>\<^verbatim>\<open>currentFileData ? (currentFileData.file_info.pages || 1) : 1000\<close>\<close>

definition maxPages :: "session \<Rightarrow> int" where
  "maxPages s =
     (case currentFileData s of
        Some d \<Rightarrow> (case pages (data_file_info d) of
                     Some n \<Rightarrow> if n = 0 then 1 else n
                   | None \<Rightarrow> 1)
      | None \<Rightarrow> 1000)"

text \<open>
  \<open>parsePageInput(event)\<close>, given \<open>event.target.value\<close>; \<open>None\<close> when the call does not
  return. Code unit 44 is the comma. What passes the filter is finite and is stored as
  the page numbers of the selection.
\<close>

definition parsePageInput :: "jsstring \<Rightarrow> session \<Rightarrow> session option" where
  "parsePageInput value s =
     (let input = trim value
      in if input = [] then Some (deselectAllPages s)
         else
           (let parts = split_on 44 input
            in case forEachPart [] parts of
                 None \<Rightarrow> None
               | Some newSelectedPages \<Rightarrow>
                   (let s' = s\<lparr>selectedPages :=
                              sort (finiteValues
                                (filter (\<lambda>page. js_le (Fin 1) page \<and> js_le page (Fin (maxPages s)))
                                   newSelectedPages))\<rparr>
                    in Some (updateTimeEstimate (selectedPages s') s'))))"

subsection \<open>Translation\<close>

datatype js_error = TypeError

text \<open>How a call ends: it returns, or it throws and leaves the state as it was then.\<close>

datatype completion = Returned session | Threw js_error session

fun final :: "completion \<Rightarrow> session" where
  "final (Returned s) = s"
| "final (Threw e s) = s"

text \<open>
  \<open>translateFileContent\<close> up to \<open>xhr.send\<close>, given the value of the \<open>fileTargetLanguage\<close>
  element. Reading \<open>currentFileInfo.pages\<close> throws when \<open>currentFileInfo\<close> is null.
\<close>

definition translateFileContent :: "jsstring \<Rightarrow> session \<Rightarrow> completion" where
  "translateFileContent targetLanguage s =
     (case currentFileData s of
        None \<Rightarrow> Returned (showNotification (Literal ''No file data available'') Error s)
      | Some _ \<Rightarrow>
          if length (selectedPages s) = 0 then
            Returned (showNotification
                        (Literal ''Please select at least one page to translate'') Error s)
          else
            (let s1 = s\<lparr>translateBtnLoading := True\<rparr>;
                 s2 = (case originalUploadedFile s1 of
                         Some _ \<Rightarrow> s1
                       | None \<Rightarrow>
                           (case fileInputFiles s1 of
                              f # _ \<Rightarrow> s1\<lparr>originalUploadedFile := Some f\<rparr>
                            | [] \<Rightarrow> s1))
             in case originalUploadedFile s2 of
                  None \<Rightarrow>
                    Returned ((showNotification (Literal ''Please upload a file first'') Error s2)
                                \<lparr>translateBtnLoading := False\<rparr>)
                | Some file \<Rightarrow>
                    (case currentFileInfo s2 of
                       None \<Rightarrow> Threw TypeError s2
                     | Some info \<Rightarrow>
                         (let formData =
                                [(''file'', FileValue file),
                                 (''target_language'', TextValue targetLanguage),
                                 (''service_name'', TextValue (utf16 ''gemini''))];
                              formData' =
                                (if length (selectedPages s2) > 0
                                    \<and> Some (int (length (selectedPages s2))) \<noteq> pages info
                                 then formData @
                                   [(''pages'', TextValue
                                       (join (map (utf16 \<circ> numberToString) (selectedPages s2))
                                          (utf16 '','')))]
                                 else formData);
                              s3 = showNotification
                                     (Literal ''Starting file translation with Google Gemini 2.5 Flash... This may take a few minutes depending on the number of pages.'')
                                     Success s2
                          in Returned (s3\<lparr>requests := requests s3 @
                               [\<lparr>req_method = ''POST'',
                                 req_url = utf16 ''http://127.0.0.1:8000/api/translate-pdf/'',
                                 req_timeout = 300000, req_body = formData'\<rparr>]\<rparr>)))))"

text \<open>The response as \<open>xhr.onload\<close> sees it: the status, the text, and what
  \<open>JSON.parse\<close> makes of the text (\<open>None\<close> when it throws).\<close>

record response =
  resp_status :: nat
  resp_text :: jsstring
  resp_json :: "json option"

definition showFileTranslationSuccess :: "jsstring \<Rightarrow> jsstring \<Rightarrow> session \<Rightarrow> session" where
  "showFileTranslationSuccess targetLanguage time s =
     (case fileTranslationOutput s of
        None \<Rightarrow> s
      | Some _ \<Rightarrow> s\<lparr>fileTranslationOutput := Some (DownloadPanel targetLanguage time)\<rparr>)"

text \<open>The \<open>xhr.onload\<close> handler of \<open>translateFileContent\<close>, given the target language read
  at submission and the elapsed time as formatted by \<open>toFixed(2)\<close>.\<close>

definition translate_onload :: "jsstring \<Rightarrow> jsstring \<Rightarrow> response \<Rightarrow> session \<Rightarrow> session" where
  "translate_onload targetLanguage translationTime xhr s0 =
     (let s = s0\<lparr>translateBtnLoading := False\<rparr>
      in if resp_status xhr = 200 then
           (case resp_json xhr of
              None \<Rightarrow> showNotification (InvalidResponseFormat (resp_text xhr)) Error s
            | Some data \<Rightarrow>
                if truthy (Some data) \<and> truthy (get_prop data ''success'') then
                  (let s1 = s\<lparr>translatedPdfDownloadUrl := get_prop data ''download_url''\<rparr>;
                       s2 = showFileTranslationSuccess targetLanguage translationTime s1
                   in showNotification
                        (SuccessfullyTranslated
                           (if truthy (get_prop data ''translated_pages'')
                            then Inl (get_prop data ''translated_pages'')
                            else Inr (length (selectedPages s2)))
                           translationTime)
                        Success s2)
                else if truthy (Some data) then
                  showNotification (TranslationFailed (get_prop data ''error'')) Error s
                else
                  showNotification
                    (Literal ''Translation failed: Empty response from server'') Error s)
         else showNotification (HttpFailure (resp_status xhr) (resp_text xhr)) Error s)"

text \<open>\<open>str.startsWith(p)\<close>\<close>

definition startsWith :: "jsstring \<Rightarrow> jsstring \<Rightarrow> bool" where
  "startsWith str p \<longleftrightarrow> take (length p) str = p"

text \<open>
  \<open>downloadTranslatedFile\<close> up to the \<open>fetch\<close> of the locator (a \<open>HEAD\<close> request; the
  link is clicked by its handlers, later). Calling \<open>trim\<close> on a truthy value that is
  not a string throws.
\<close>

definition downloadTranslatedFile :: "session \<Rightarrow> completion" where
  "downloadTranslatedFile s =
     (if \<not> truthy (translatedPdfDownloadUrl s) then
        Returned (showNotification
                    (Literal ''No translated file available for download'') Error s)
      else
        (case translatedPdfDownloadUrl s of
           Some (JStr url) \<Rightarrow>
             if trim url = [] then
               Returned (showNotification
                           (Literal ''Invalid download URL received from server'') Error s)
             else
               (let url' = (if \<not> startsWith url (utf16 ''http://'')
                               \<and> \<not> startsWith url (utf16 ''https://'')
                            then utf16 ''http://127.0.0.1:8000'' @ url else url);
                    s1 = s\<lparr>translatedPdfDownloadUrl := Some (JStr url')\<rparr>
                in Returned (s1\<lparr>requests := requests s1 @
                     [\<lparr>req_method = ''HEAD'', req_url = url', req_timeout = 0,
                       req_body = []\<rparr>]\<rparr>))
         | _ \<Rightarrow> Threw TypeError s))"

subsection \<open>Example states\<close>

text \<open>The globals as the script initialises them (lines 573-580), nothing shown or sent
  yet, the optional elements present.\<close>

definition initial_session :: session where
  "initial_session =
     \<lparr>currentFileInfo = None, translatedPdfDownloadUrl = Some (JStr []), selectedPages = [],
      currentFileData = None, originalUploadedFile = None, notifications = [],
      requests = [], fileInputFiles = [], timeEstimate = Some ''--'',
      fileTranslationOutput = Some Hidden, translateBtnLoading = False,
      fileUploadLoading = False\<rparr>"

definition example_pdf :: js_file where
  "example_pdf =
     \<lparr>file_name = utf16 ''report.pdf'', file_type = utf16 ''application/pdf'',
      file_bytes = [37, 80, 68, 70]\<rparr>"

definition example_doc :: js_file where
  "example_doc =
     \<lparr>file_name = utf16 ''report.doc'', file_type = utf16 ''application/msword'',
      file_bytes = [208, 207, 17, 224]\<rparr>"

definition example_info :: file_info where
  "example_info = \<lparr>extension = utf16 ''.pdf'', pages = Some 10\<rparr>"

text \<open>The state once the upload of \<open>example_pdf\<close> has succeeded with ten pages and
  \<open>showFileTranslationResults\<close> has run.\<close>

definition loaded_session :: session where
  "loaded_session =
     initial_session
       \<lparr>currentFileInfo := Some example_info,
        currentFileData := Some \<lparr>data_file_info = example_info\<rparr>,
        originalUploadedFile := Some example_pdf\<rparr>"



text \<open>Loaded sessions with a selection: pages 2, 5, 7; pages 1 and 3; and the state after
  the translation of page 1 has been submitted.\<close>

definition three_selected :: session where
  "three_selected = loaded_session\<lparr>selectedPages := [2, 5, 7]\<rparr>"

definition partial_session :: session where
  "partial_session = loaded_session\<lparr>selectedPages := [1, 3]\<rparr>"

definition submitted_session :: session where
  "submitted_session =
     final (translateFileContent (utf16 ''French'') (loaded_session\<lparr>selectedPages := [1]\<rparr>))"

text \<open>A response with status 200 and the body \<^verbatim>\<open>{"success":true}\<close>.\<close>

definition success_without_url :: response where
  "success_without_url =
     \<lparr>resp_status = 200,
      resp_text = utf16 ''{'' @ [34] @ utf16 ''success'' @ [34] @ utf16 '':true}'',
      resp_json = Some (JObj [(utf16 ''success'', JBool True)])\<rparr>"

text \<open>The state once an upload has succeeded with a \<open>file_info\<close> that declares no page
  count: \<open>generatePagePreviews\<close> renders one page icon (\<open>pages || 1\<close>).\<close>

definition undeclared_info :: file_info where
  "undeclared_info = \<lparr>extension = utf16 ''.pdf'', pages = None\<rparr>"

definition undeclared_session :: session where
  "undeclared_session =
     initial_session
       \<lparr>currentFileInfo := Some undeclared_info,
        currentFileData := Some \<lparr>data_file_info = undeclared_info\<rparr>,
        originalUploadedFile := Some example_pdf\<rparr>"

subsection \<open>The duration estimate as the specification words it\<close>

text \<open>
  Following the specification of \<open>estimateDuration\<close>, not the code: the ceiling of 4.5
  seconds per selected page, shown as \<open>Ns\<close> below a minute and as \<open>Mm Ss\<close> from a
  minute on, and the sentinel for an empty selection.
\<close>

definition estimateDuration_spec :: "int list \<Rightarrow> string" where
  "estimateDuration_spec selection =
     (if selection = [] then ''--''
      else
        (let total = \<lceil>of_nat (length selection) * (9 / 2 :: rat)\<rceil>
         in if total < 60 then numberToString total @ ''s''
            else numberToString (total div 60) @ ''m '' @ numberToString (total mod 60) @ ''s''))"

section \<open>Upload validation\<close>

text \<open>
  Claim C9. A file whose declared content type is not in the allow-list is rejected at
  once: handleFileUpload shows the unsupported-type error notification and sends no
  request.
\<close>

theorem handleFileUpload_rejects_unlisted_type:
  assumes "file_type file \<notin> set allowedTypes"
  shows "requests (handleFileUpload file s) = requests s
       \<and> notifications (handleFileUpload file s) = notifications s @
           [(Literal ''Unsupported file type. Please upload supported document or image formats.'', Error)]
       \<and> fileUploadLoading (handleFileUpload file s) = fileUploadLoading s"
  using assms
  by (simp add: handleFileUpload_def showNotification_def)

theorem handleFileUpload_rejects_unlisted_type_witness:
  "file_type example_doc \<notin> set allowedTypes
   \<and> requests (handleFileUpload example_doc initial_session) = []
   \<and> notifications (handleFileUpload example_doc initial_session) =
      [(Literal ''Unsupported file type. Please upload supported document or image formats.'', Error)]
   \<and> fileUploadLoading (handleFileUpload example_doc initial_session) = False"
proof -
  have h: "file_type example_doc \<notin> set allowedTypes"
    by (simp add: example_doc_def allowedTypes_def utf16_def)
  show ?thesis
    using h handleFileUpload_rejects_unlisted_type [OF h, of initial_session]
    by (simp add: initial_session_def)
qed

text \<open>
  Claim C10. handleFileUpload stores the file it is given in originalUploadedFile before
  it looks at the content type, so the retained payload is replaced by every call, also
  by one that rejects the file.
\<close>

theorem handleFileUpload_retains_file:
  "originalUploadedFile (handleFileUpload file s) = Some file"
  by (simp add: handleFileUpload_def showNotification_def uploadFileToServer_def
      showFileUploadLoading_def Let_def)

section \<open>Submitting a translation\<close>

lemma loaded_session_fields:
  "selectedPages loaded_session = []"
  "currentFileData loaded_session = Some \<lparr>data_file_info = example_info\<rparr>"
  "currentFileInfo loaded_session = Some example_info"
  "originalUploadedFile loaded_session = Some example_pdf"
  "requests loaded_session = []"
  "notifications loaded_session = []"
  "fileInputFiles loaded_session = []"
  "timeEstimate loaded_session = Some ''--''"
  "fileTranslationOutput loaded_session = Some Hidden"
  by (simp_all add: loaded_session_def initial_session_def)


text \<open>
  Claim C8. With an empty selection translateFileContent returns at once with an error
  notification (the missing-file-data one when no upload result is held, the
  select-a-page one otherwise) and sends no request.
\<close>

theorem translateFileContent_empty_selection:
  assumes "selectedPages s = []"
  shows "translateFileContent targetLanguage s =
           Returned (showNotification
             (Literal (if currentFileData s = None then ''No file data available''
                       else ''Please select at least one page to translate'')) Error s)
         \<and> requests (final (translateFileContent targetLanguage s)) = requests s"
  using assms
  by (simp add: translateFileContent_def showNotification_def split: option.splits)

theorem translateFileContent_empty_selection_witness:
  "selectedPages loaded_session = []
   \<and> translateFileContent (utf16 ''French'') loaded_session =
       Returned (showNotification
         (Literal ''Please select at least one page to translate'') Error loaded_session)
   \<and> requests (final (translateFileContent (utf16 ''French'') loaded_session)) = []"
proof -
  have h: "selectedPages loaded_session = []"
    by (simp add: loaded_session_fields)
  show ?thesis
    using translateFileContent_empty_selection [OF h, of "utf16 ''French''"]
    by (simp add: loaded_session_fields showNotification_def)
qed




lemma submitted_session_eq:
  "submitted_session = loaded_session
     \<lparr>selectedPages := [1],
      notifications := [(Literal ''Starting file translation with Google Gemini 2.5 Flash... This may take a few minutes depending on the number of pages.'', Success)],
      requests := [\<lparr>req_method = ''POST'',
                        req_url = utf16 ''http://127.0.0.1:8000/api/translate-pdf/'',
                        req_timeout = 300000,
                        req_body = [(''file'', FileValue example_pdf),
                                    (''target_language'', TextValue (utf16 ''French'')),
                                    (''service_name'', TextValue (utf16 ''gemini'')),
                                    (''pages'', TextValue (utf16 ''1''))]\<rparr>],
      translateBtnLoading := True\<rparr>"
  by (simp add: submitted_session_def loaded_session_def
      initial_session_def translateFileContent_def showNotification_def example_info_def
      numberToString_def utf16_def)

text \<open>
  Claim C1, as stated, fails: a 200 response whose body is \<^verbatim>\<open>{"success":true}\<close>, with
  no download_url, takes the success branch. The handler stores undefined as the
  locator, shows the download panel and the success notification; no error is shown.
\<close>

theorem translate_onload_success_without_url_counterexample:
  "resp_status success_without_url = 200
   \<and> resp_json success_without_url = Some (JObj [(utf16 ''success'', JBool True)])
   \<and> translate_onload (utf16 ''French'') (utf16 ''12.34'') success_without_url submitted_session =
       submitted_session
         \<lparr>translatedPdfDownloadUrl := None,
          notifications := notifications submitted_session @
            [(SuccessfullyTranslated (Inr 1) (utf16 ''12.34''), Success)],
          fileTranslationOutput := Some (DownloadPanel (utf16 ''French'') (utf16 ''12.34'')),
          translateBtnLoading := False\<rparr>"
  by (simp add: submitted_session_eq success_without_url_def translate_onload_def
      showFileTranslationSuccess_def showNotification_def loaded_session_def
      initial_session_def utf16_def)

lemma truthy_get_prop_obj:
  "truthy (get_prop data k) \<Longrightarrow> truthy (Some data)"
  by (cases data) simp_all

text \<open>
  Claim C1, amended. For every 200 response whose JSON body has a truthy success flag
  and no download_url, the handler reports success: it appends the success notification,
  stores undefined as the locator and fills the download panel when that element exists.
  The missing locator surfaces only when the download is requested:
  downloadTranslatedFile then returns with the error notification
  "No translated file available for download".
\<close>

theorem translate_onload_success_without_url:
  assumes "resp_status xhr = 200" and "resp_json xhr = Some data"
    and "truthy (get_prop data ''success'')" and "get_prop data ''download_url'' = None"
  shows "notifications (translate_onload targetLanguage translationTime xhr s) =
           notifications s @
             [(SuccessfullyTranslated
                 (if truthy (get_prop data ''translated_pages'')
                  then Inl (get_prop data ''translated_pages'')
                  else Inr (length (selectedPages s)))
                 translationTime, Success)]
       \<and> translatedPdfDownloadUrl (translate_onload targetLanguage translationTime xhr s) = None
       \<and> fileTranslationOutput (translate_onload targetLanguage translationTime xhr s) =
           map_option (\<lambda>_. DownloadPanel targetLanguage translationTime) (fileTranslationOutput s)
       \<and> downloadTranslatedFile (translate_onload targetLanguage translationTime xhr s) =
           Returned (showNotification (Literal ''No translated file available for download'')
                       Error (translate_onload targetLanguage translationTime xhr s))"
proof -
  have t: "truthy (Some data)"
    using assms(3) by (rule truthy_get_prop_obj)
  let ?s' = "translate_onload targetLanguage translationTime xhr s"
  have url: "translatedPdfDownloadUrl ?s' = None"
    using assms t
    by (simp add: translate_onload_def showFileTranslationSuccess_def showNotification_def
        Let_def split: option.splits)
  have n: "notifications ?s' = notifications s @
             [(SuccessfullyTranslated
                 (if truthy (get_prop data ''translated_pages'')
                  then Inl (get_prop data ''translated_pages'')
                  else Inr (length (selectedPages s)))
                 translationTime, Success)]"
    using assms t
    by (simp add: translate_onload_def showFileTranslationSuccess_def showNotification_def
        Let_def split: option.splits)
  have p: "fileTranslationOutput ?s' =
           map_option (\<lambda>_. DownloadPanel targetLanguage translationTime) (fileTranslationOutput s)"
    using assms t
    by (simp add: translate_onload_def showFileTranslationSuccess_def showNotification_def
        Let_def split: option.splits)
  have d: "downloadTranslatedFile ?s' =
           Returned (showNotification (Literal ''No translated file available for download'')
                       Error ?s')"
    using url by (simp add: downloadTranslatedFile_def)
  show ?thesis
    using url n p d by simp
qed

theorem translate_onload_success_without_url_witness:
  "resp_status success_without_url = 200
   \<and> resp_json success_without_url = Some (JObj [(utf16 ''success'', JBool True)])
   \<and> truthy (get_prop (JObj [(utf16 ''success'', JBool True)]) ''success'')
   \<and> get_prop (JObj [(utf16 ''success'', JBool True)]) ''download_url'' = None
   \<and> notifications (translate_onload (utf16 ''French'') (utf16 ''12.34'') success_without_url
        submitted_session) =
       notifications submitted_session @
         [(SuccessfullyTranslated (Inr 1) (utf16 ''12.34''), Success)]
   \<and> downloadTranslatedFile (translate_onload (utf16 ''French'') (utf16 ''12.34'')
        success_without_url submitted_session) =
       Returned (showNotification (Literal ''No translated file available for download'')
         Error (translate_onload (utf16 ''French'') (utf16 ''12.34'') success_without_url
           submitted_session))"
proof -
  let ?data = "JObj [(utf16 ''success'', JBool True)]"
  have h1: "resp_status success_without_url = 200"
    and h2: "resp_json success_without_url = Some ?data"
    by (simp_all add: success_without_url_def)
  have h3: "truthy (get_prop ?data ''success'')"
    and h4: "get_prop ?data ''download_url'' = None"
    by (simp_all add: utf16_def)
  have sel: "selectedPages submitted_session = [1]"
    by (simp add: submitted_session_eq)
  have tp: "get_prop ?data ''translated_pages'' = None"
    by (simp add: utf16_def)
  show ?thesis
    using h1 h2 h3 h4
      translate_onload_success_without_url [OF h1 h2 h3 h4, of "utf16 ''French''"
        "utf16 ''12.34''" submitted_session]
    by (simp add: sel tp utf16_def)
qed

lemma length_ne_iff_psubset:
  assumes "distinct xs" and "set xs \<subseteq> {1..n}" and "xs \<noteq> []"
  shows "int (length xs) \<noteq> n \<longleftrightarrow> set xs \<subset> {1..n}"
proof -
  obtain x where "x \<in> set xs"
    using assms(3) by (cases xs) auto
  then have "x \<in> {1..n}"
    using assms(2) by blast
  then have True: "1 \<le> n"
    by simp
  have c: "card {1..n} = nat n"
    by simp
  have l: "length xs = card (set xs)"
    using assms(1) by (simp add: distinct_card)
  show ?thesis
  proof
    assume "int (length xs) \<noteq> n"
    then have "card (set xs) \<noteq> card {1..n}"
      using l c True by auto
    then show "set xs \<subset> {1..n}"
      using assms(2) by auto
  next
    assume "set xs \<subset> {1..n}"
    then have "card (set xs) < card {1..n}"
      by (intro psubset_card_mono) simp_all
    then show "int (length xs) \<noteq> n"
      using l c by auto
  qed
qed

text \<open>
  Where the descriptor declares its page count n and the selection is a non-empty list
  of distinct pages within 1..n, translateFileContent sends one POST whose form carries
  the file at hand (the retained one, or else the first of the file input), the target
  language and the provider identifier "gemini", followed by the pages field (the page
  numbers joined by commas) exactly when the selection is a strict subset of 1..n.
\<close>

lemma translateFileContent_pages_field_declared_count:
  assumes "currentFileData s = Some d" and "currentFileInfo s = Some info"
    and "pages info = Some n"
    and "originalUploadedFile s = Some file
         \<or> (originalUploadedFile s = None \<and> (\<exists>rest. fileInputFiles s = file # rest))"
    and "selectedPages s \<noteq> []" and "distinct (selectedPages s)"
    and "set (selectedPages s) \<subseteq> {1..n}"
  shows "\<exists>s'. translateFileContent targetLanguage s = Returned s'
           \<and> requests s' = requests s @
               [\<lparr>req_method = ''POST'',
                 req_url = utf16 ''http://127.0.0.1:8000/api/translate-pdf/'',
                 req_timeout = 300000,
                 req_body =
                   [(''file'', FileValue file),
                    (''target_language'', TextValue targetLanguage),
                    (''service_name'', TextValue (utf16 ''gemini''))] @
                   (if set (selectedPages s) \<subset> {1..n}
                    then [(''pages'', TextValue
                            (join (map (utf16 \<circ> numberToString) (selectedPages s))
                               (utf16 '','')))]
                    else [])\<rparr>]"
proof -
  have k: "int (length (selectedPages s)) \<noteq> n \<longleftrightarrow> set (selectedPages s) \<subset> {1..n}"
    using assms(6,7,5) by (rule length_ne_iff_psubset)
  from assms(4) show ?thesis
  proof
    assume "originalUploadedFile s = Some file"
    then show ?thesis
      using assms(1-3,5) k
      by (simp add: translateFileContent_def showNotification_def Let_def)
  next
    assume "originalUploadedFile s = None \<and> (\<exists>rest. fileInputFiles s = file # rest)"
    then obtain rest where "originalUploadedFile s = None" and "fileInputFiles s = file # rest"
      by blast
    then show ?thesis
      using assms(1-3,5) k
      by (simp add: translateFileContent_def showNotification_def Let_def)
  qed
qed

lemma translateFileContent_pages_field_declared_count_example:
  "currentFileData partial_session = Some \<lparr>data_file_info = example_info\<rparr>
   \<and> currentFileInfo partial_session = Some example_info
   \<and> pages example_info = Some 10
   \<and> originalUploadedFile partial_session = Some example_pdf
   \<and> selectedPages partial_session \<noteq> []
   \<and> distinct (selectedPages partial_session)
   \<and> set (selectedPages partial_session) \<subseteq> {1..10}
   \<and> (\<exists>s'. translateFileContent (utf16 ''French'') partial_session = Returned s'
          \<and> requests s' =
              [\<lparr>req_method = ''POST'',
                req_url = utf16 ''http://127.0.0.1:8000/api/translate-pdf/'',
                req_timeout = 300000,
                req_body =
                  [(''file'', FileValue example_pdf),
                   (''target_language'', TextValue (utf16 ''French'')),
                   (''service_name'', TextValue (utf16 ''gemini'')),
                   (''pages'', TextValue (utf16 ''1,3''))]\<rparr>])"
proof -
  have sel: "selectedPages partial_session = [1, 3]"
    by (simp add: partial_session_def)
  have h1: "currentFileData partial_session = Some \<lparr>data_file_info = example_info\<rparr>"
    and h2: "currentFileInfo partial_session = Some example_info"
    and f: "originalUploadedFile partial_session = Some example_pdf"
    and rq: "requests partial_session = []"
    by (simp_all add: partial_session_def loaded_session_fields)
  have h3: "pages example_info = Some 10"
    by (simp add: example_info_def)
  have h4: "originalUploadedFile partial_session = Some example_pdf
      \<or> (originalUploadedFile partial_session = None
          \<and> (\<exists>rest. fileInputFiles partial_session = example_pdf # rest))"
    using f by simp
  have h5: "selectedPages partial_session \<noteq> []"
    and h6: "distinct (selectedPages partial_session)"
    and h7: "set (selectedPages partial_session) \<subseteq> {1..10}"
    by (simp_all add: sel)
  have "(2::int) \<in> {1..10}" and "(2::int) \<notin> {1, 3}"
    by simp_all
  then have "{1, 3} \<noteq> {1..10::int}"
    by blast
  then have strict: "{1, 3} \<subset> {1..10::int}"
    by auto
  show ?thesis
    using h1 h2 h3 f h5 h6 h7
      translateFileContent_pages_field_declared_count [OF h1 h2 h3 h4 h5 h6 h7, of "utf16 ''French''"]
    by (simp add: sel rq strict numberToString_def utf16_def)
qed

section \<open>Page selection\<close>

lemma updateTimeEstimate_selectedPages:
  "selectedPages (updateTimeEstimate sel s) = selectedPages s"
  by (simp add: updateTimeEstimate_def Let_def split: option.splits)

lemma indexOf_absent: "indexOf xs x = - 1 \<longleftrightarrow> x \<notin> set xs"
proof (induction xs)
  case Nil
  show ?case by simp
next
  case (Cons y ys)
  have "indexOf ys x \<ge> - 1 \<Longrightarrow> indexOf ys x + 1 \<noteq> - 1"
    by arith
  moreover have "indexOf ys x \<ge> - 1"
    by (induction ys) (auto simp: Let_def)
  ultimately show ?case
    using Cons by (auto simp: Let_def)
qed

lemma indexOf_lower: "- 1 \<le> indexOf xs x"
  by (induction xs) (auto simp: Let_def)

lemma indexOf_present: "- 1 < indexOf xs x \<longleftrightarrow> x \<in> set xs"
  using indexOf_absent [of xs x] indexOf_lower [of xs x] by arith

lemma splice1_Cons: "0 \<le> i \<Longrightarrow> splice1 (i + 1) (y # ys) = y # splice1 i ys"
  by (simp add: splice1_def nat_add_distrib)

lemma splice1_indexOf: "x \<in> set xs \<Longrightarrow> splice1 (indexOf xs x) xs = remove1 x xs"
proof (induction xs)
  case Nil
  then show ?case by simp
next
  case (Cons y ys)
  show ?case
  proof (cases "y = x")
    case True
    then show ?thesis by (simp add: splice1_def)
  next
    case False
    then have m: "x \<in> set ys"
      using Cons.prems by simp
    then have i: "0 \<le> indexOf ys x"
      using indexOf_present [of ys x] by arith
    have "indexOf (y # ys) x = indexOf ys x + 1"
      using False i by (simp add: Let_def)
    then show ?thesis
      using False i Cons.IH [OF m] by (simp add: splice1_Cons)
  qed
qed

lemma togglePageSelection_selectedPages:
  "selectedPages (togglePageSelection p s) =
     sort (if p \<in> set (selectedPages s) then remove1 p (selectedPages s)
           else selectedPages s @ [p])"
  using indexOf_present [of "selectedPages s" p]
  by (simp add: togglePageSelection_def Let_def updateTimeEstimate_selectedPages
      splice1_indexOf)

text \<open>
  Claim C3, as stated, fails: togglePageSelection has no range check. In a session of
  ten pages with nothing selected, toggling page 0 selects it.
\<close>

theorem togglePageSelection_out_of_range_counterexample:
  "maxPages loaded_session = 10
   \<and> selectedPages loaded_session = []
   \<and> selectedPages (togglePageSelection 0 loaded_session) = [0]"
  by (simp add: togglePageSelection_selectedPages loaded_session_def initial_session_def
      maxPages_def example_info_def)

text \<open>
  Claim C3, amended. For every selection of distinct pages and every integer page,
  inside the page range or not, togglePageSelection removes the page when it is selected
  and adds it when it is not, and leaves the selection sorted and distinct. The function
  itself checks no range; its caller passes the numbers of the rendered page icons.
\<close>

theorem togglePageSelection_any_page:
  assumes "distinct (selectedPages s)"
  shows "set (selectedPages (togglePageSelection p s)) =
           (if p \<in> set (selectedPages s) then set (selectedPages s) - {p}
            else insert p (set (selectedPages s)))
         \<and> sorted (selectedPages (togglePageSelection p s))
         \<and> distinct (selectedPages (togglePageSelection p s))"
  using assms by (simp add: togglePageSelection_selectedPages)

theorem togglePageSelection_any_page_witness:
  "distinct (selectedPages loaded_session)
   \<and> set (selectedPages (togglePageSelection 11 loaded_session)) = {11}
   \<and> sorted (selectedPages (togglePageSelection 11 loaded_session))
   \<and> distinct (selectedPages (togglePageSelection 11 loaded_session))"
proof -
  have h: "distinct (selectedPages loaded_session)"
    by (simp add: loaded_session_def initial_session_def)
  have e: "selectedPages loaded_session = []"
    by (simp add: loaded_session_def initial_session_def)
  show ?thesis
    using h togglePageSelection_any_page [OF h, of 11]
    by (simp add: e)
qed

text \<open>
  Claim C7. On a Selected Page Set (ascending and distinct, the invariant of the data
  model, which togglePageSelection and parsePageInput establish) toggling the same page
  twice restores the selection exactly, for every page and so for every page in range.
\<close>

theorem togglePageSelection_twice:
  assumes "sorted (selectedPages s)" and "distinct (selectedPages s)"
  shows "selectedPages (togglePageSelection p (togglePageSelection p s)) = selectedPages s"
proof (cases "p \<in> set (selectedPages s)")
  case True
  let ?l = "remove1 p (selectedPages s)"
  have "sorted ?l"
    using assms(1) by (rule sorted_remove1)
  then have first: "selectedPages (togglePageSelection p s) = ?l"
    using True by (simp add: togglePageSelection_selectedPages sorted_sort_id)
  have "p \<notin> set ?l"
    using assms(2) by simp
  moreover have "selectedPages (togglePageSelection p (togglePageSelection p s)) =
      sort (if p \<in> set ?l then remove1 p ?l else ?l @ [p])"
    by (simp only: togglePageSelection_selectedPages [of p "togglePageSelection p s"] first)
  ultimately have "selectedPages (togglePageSelection p (togglePageSelection p s)) =
      sort (?l @ [p])"
    by simp
  moreover have "sort (?l @ [p]) = selectedPages s"
    using True assms(1) by (intro properties_for_sort) simp_all
  ultimately show ?thesis
    by simp
next
  case False
  let ?l = "sort (selectedPages s @ [p])"
  have first: "selectedPages (togglePageSelection p s) = ?l"
    using False by (simp add: togglePageSelection_selectedPages)
  have "p \<in> set ?l"
    by simp
  moreover have "selectedPages (togglePageSelection p (togglePageSelection p s)) =
      sort (if p \<in> set ?l then remove1 p ?l else ?l @ [p])"
    by (simp only: togglePageSelection_selectedPages [of p "togglePageSelection p s"] first)
  ultimately have "selectedPages (togglePageSelection p (togglePageSelection p s)) =
      sort (remove1 p ?l)"
    by simp
  moreover have "sort (remove1 p ?l) = selectedPages s"
    using assms(1) by (intro properties_for_sort) simp_all
  ultimately show ?thesis
    by simp
qed

theorem togglePageSelection_twice_witness:
  "sorted (selectedPages three_selected) \<and> distinct (selectedPages three_selected)
   \<and> selectedPages (togglePageSelection 5 three_selected) = [2, 7]
   \<and> selectedPages (togglePageSelection 5 (togglePageSelection 5 three_selected)) = [2, 5, 7]
   \<and> selectedPages (togglePageSelection 3 three_selected) = [2, 3, 5, 7]
   \<and> selectedPages (togglePageSelection 3 (togglePageSelection 3 three_selected)) = [2, 5, 7]"
proof -
  have h1: "sorted (selectedPages three_selected)"
    and h2: "distinct (selectedPages three_selected)"
    by (simp_all add: three_selected_def)
  have e: "selectedPages three_selected = [2, 5, 7]"
    by (simp add: three_selected_def)
  show ?thesis
    using h1 h2 togglePageSelection_twice [OF h1 h2, of 5]
      togglePageSelection_twice [OF h1 h2, of 3]
    by (simp add: e togglePageSelection_selectedPages)
qed

subsection \<open>Rounding to doubles\<close>

lemma bitlen_0 [simp]: "bitlen 0 = 0"
  by (subst bitlen.simps) simp

lemma bitlen_numeral [simp]:
  "bitlen (numeral k) = Suc (bitlen (numeral k div 2))"
  by (subst bitlen.simps) simp

lemma bitlen_1 [simp]: "bitlen (Suc 0) = 1"
  by (subst bitlen.simps) simp

lemma bitlen_le: "n < 2 ^ k \<Longrightarrow> bitlen n \<le> k"
proof (induction k arbitrary: n)
  case 0
  then show ?case by simp
next
  case (Suc k)
  show ?case
  proof (cases "n = 0")
    case True
    then show ?thesis by simp
  next
    case False
    have "n div 2 < 2 ^ k"
      using Suc.prems by simp
    then have "bitlen (n div 2) \<le> k"
      by (rule Suc.IH)
    then show ?thesis
      using False by (subst bitlen.simps) simp
  qed
qed

lemma roundToDouble_exact: "n < 2 ^ 53 \<Longrightarrow> roundToDouble n = n"
proof -
  assume "n < 2 ^ 53"
  then have "bitlen n - 53 = 0"
    using bitlen_le [of n 53] by simp
  then show ?thesis
    by (simp add: roundToDouble_def)
qed

lemma doubleOfNat_exact: "n < 2 ^ 53 \<Longrightarrow> doubleOfNat n = Fin (int n)"
proof -
  assume n: "n < 2 ^ 53"
  have "(2::nat) ^ 53 < 2 ^ 1024"
    by (rule power_strict_increasing) simp_all
  then have "n < 2 ^ 1024"
    using n by (rule less_trans [rotated])
  then show ?thesis
    using n by (simp add: doubleOfNat_def roundToDouble_exact)
qed

lemma doubleOfInt_exact: "\<bar>i\<bar> < 2 ^ 53 \<Longrightarrow> doubleOfInt i = Fin i"
proof (cases "0 \<le> i")
  case True
  assume "\<bar>i\<bar> < 2 ^ 53"
  then have "nat i < 2 ^ 53"
    using True by (simp add: nat_less_iff)
  then show ?thesis
    using True by (simp add: doubleOfInt_def doubleOfNat_exact)
next
  case False
  assume "\<bar>i\<bar> < 2 ^ 53"
  then have "nat (- i) < 2 ^ 53"
    using False by (simp add: nat_less_iff)
  then show ?thesis
    using False by (simp add: doubleOfInt_def doubleOfNat_exact)
qed

lemma bitlen_two_53: "bitlen 9007199254740992 = 54"
  by simp

lemma bitlen_two_53_1: "bitlen 9007199254740993 = 54"
  by simp

lemma two_53: "(2::nat) ^ 53 = 9007199254740992"
  by simp

lemma roundToDouble_two_53: "roundToDouble 9007199254740992 = 9007199254740992"
  by (simp add: roundToDouble_def bitlen_two_53 Let_def)

lemma roundToDouble_two_53_1: "roundToDouble 9007199254740993 = 9007199254740992"
  by (simp add: roundToDouble_def bitlen_two_53_1 Let_def)

lemma below_overflow: "(9007199254740992::nat) < 2 ^ 1024"
proof -
  have "(2::nat) ^ 53 < 2 ^ 1024"
    by (rule power_strict_increasing) simp_all
  then show ?thesis
    by (simp only: two_53)
qed

lemma js_inc_stuck: "js_inc (Fin 9007199254740992) = Fin 9007199254740992"
  using below_overflow
  by (simp add: doubleOfInt_def doubleOfNat_def roundToDouble_two_53_1)

lemma rangeLoop_stuck:
  "rangeLoop (Fin 9007199254740992) (Fin 9007199254740992) newSelectedPages = None"
proof -
  let ?K = "Fin 9007199254740992"
  have never: "\<not> (i = ?K \<and> e = ?K)" if r: "rangeLoop i e acc = Some y" for i e acc y
  proof (rule rangeLoop.raw_induct [where P = "\<lambda>i e acc y. \<not> (i = ?K \<and> e = ?K)", OF _ r])
    fix f :: "jsnum \<Rightarrow> jsnum \<Rightarrow> jsnum list \<Rightarrow> jsnum list option"
    fix i e acc y
    assume IH: "\<And>i e acc y. f i e acc = Some y \<Longrightarrow> \<not> (i = ?K \<and> e = ?K)"
      and step: "(if js_le i e then f (js_inc i) e (pushNew acc i) else Some acc) = Some y"
    show "\<not> (i = ?K \<and> e = ?K)"
    proof
      assume ie: "i = ?K \<and> e = ?K"
      then have "f ?K ?K (pushNew acc i) = Some y"
        using step js_inc_stuck by simp
      then show False
        using IH by blast
    qed
  qed
  show ?thesis
  proof (cases "rangeLoop ?K ?K newSelectedPages")
    case None
    then show ?thesis .
  next
    case (Some y)
    then show ?thesis
      using never by blast
  qed
qed

subsection \<open>Parsing the page input\<close>

lemma parseInt_two_53:
  "parseInt (utf16 ''9007199254740992'') = Some (Fin 9007199254740992)"
  using below_overflow
  by (simp add: parseInt_def utf16_def isWhiteSpace_def radixDigit_def doubleOfInt_def
      doubleOfNat_def roundToDouble_two_53)

lemma split_failing:
  "split_on 45 (utf16 ''9007199254740992-9007199254740992'') =
     [utf16 ''9007199254740992'', utf16 ''9007199254740992'']"
  by (simp add: utf16_def)

lemma trim_digits: "trim (utf16 ''9007199254740992'') = utf16 ''9007199254740992''"
  by (simp add: trim_def utf16_def isWhiteSpace_def)

lemma trim_failing:
  "trim (utf16 ''9007199254740992-9007199254740992'') =
     utf16 ''9007199254740992-9007199254740992''"
  by (simp add: trim_def utf16_def isWhiteSpace_def)

lemma parsePart_failing:
  "parsePart newSelectedPages (utf16 ''9007199254740992-9007199254740992'') = None"
proof -
  have "45 \<in> set (utf16 ''9007199254740992-9007199254740992'')"
    by (simp add: utf16_def)
  then show ?thesis
    by (simp add: parsePart_def trim_failing split_failing trim_digits parseInt_two_53
        rangeLoop_stuck)
qed

text \<open>
  Claim C2 fails on the code at the input \<^verbatim>\<open>9007199254740992-9007199254740992\<close>. Both
  ends parse to \<open>2^53\<close>, the range loop is entered, and \<open>i++\<close> rounds \<open>2^53 + 1\<close> back
  to \<open>2^53\<close>: the loop condition stays true and parsePageInput never returns, whatever
  the session. No selection results, and the selection held before is not replaced.
\<close>

theorem parsePageInput_range_at_two_53_never_returns:
  "parsePageInput (utf16 ''9007199254740992-9007199254740992'') s = None"
proof -
  have "44 \<notin> set (utf16 ''9007199254740992-9007199254740992'')"
    by (simp add: utf16_def)
  then have "split_on 44 (utf16 ''9007199254740992-9007199254740992'') =
      [utf16 ''9007199254740992-9007199254740992'']"
    by (simp add: utf16_def)
  moreover have "utf16 ''9007199254740992-9007199254740992'' \<noteq> []"
    by (simp add: utf16_def)
  ultimately show ?thesis
    by (simp add: parsePageInput_def trim_failing parsePart_failing)
qed

lemma distinct_pushNew: "distinct xs \<Longrightarrow> distinct (pushNew xs i)"
  by (simp add: pushNew_def)

lemma rangeLoop_distinct:
  assumes r: "rangeLoop i e acc = Some ys" and d: "distinct acc"
  shows "distinct ys"
proof -
  have "distinct acc \<longrightarrow> distinct ys"
  proof (rule rangeLoop.raw_induct [where P = "\<lambda>i e acc ys. distinct acc \<longrightarrow> distinct ys", OF _ r])
    fix f :: "jsnum \<Rightarrow> jsnum \<Rightarrow> jsnum list \<Rightarrow> jsnum list option"
    fix i e acc ys
    assume IH: "\<And>i e acc ys. f i e acc = Some ys \<Longrightarrow> distinct acc \<longrightarrow> distinct ys"
      and step: "(if js_le i e then f (js_inc i) e (pushNew acc i) else Some acc) = Some ys"
    show "distinct acc \<longrightarrow> distinct ys"
    proof (cases "js_le i e")
      case True
      then have "f (js_inc i) e (pushNew acc i) = Some ys"
        using step by simp
      then have "distinct (pushNew acc i) \<longrightarrow> distinct ys"
        by (rule IH)
      then show ?thesis
        by (simp add: distinct_pushNew)
    next
      case False
      then show ?thesis
        using step by simp
    qed
  qed
  then show ?thesis
    using d by simp
qed

lemma parsePart_distinct:
  "parsePart acc part = Some ys \<Longrightarrow> distinct acc \<Longrightarrow> distinct ys"
  by (auto simp: parsePart_def Let_def distinct_pushNew
      split: if_splits list.splits option.splits dest: rangeLoop_distinct)

lemma forEachPart_distinct:
  "forEachPart acc parts = Some ys \<Longrightarrow> distinct acc \<Longrightarrow> distinct ys"
proof (induction parts arbitrary: acc)
  case Nil
  then show ?case by simp
next
  case (Cons part parts)
  then show ?case
    by (auto split: option.splits dest: parsePart_distinct)
qed

lemma set_finiteValues: "set (finiteValues xs) = {i. Fin i \<in> set xs}"
  by (induction xs rule: finiteValues.induct) auto

lemma distinct_finiteValues: "distinct xs \<Longrightarrow> distinct (finiteValues xs)"
  by (induction xs rule: finiteValues.induct) (auto simp: set_finiteValues)

text \<open>
  What holds of parsePageInput beside that: whenever it returns, with a file of n pages
  loaded, the selection it leaves is strictly ascending and within 1..n; and it returns
  on every input in which each number read is below \<open>2^53\<close> in magnitude.
\<close>

lemma parsePageInput_result:
  assumes "currentFileData s = Some d" and "pages (data_file_info d) = Some n" and "1 \<le> n"
    and "parsePageInput value s = Some s'"
  shows "sorted_wrt (<) (selectedPages s') \<and> set (selectedPages s') \<subseteq> {1..n}"
proof (cases "trim value = []")
  case True
  then have "s' = deselectAllPages s"
    using assms(4) by (simp add: parsePageInput_def)
  then show ?thesis
    by (simp add: deselectAllPages_def updateTimeEstimate_selectedPages)
next
  case False
  have m: "maxPages s = n"
    using assms(1-3) by (simp add: maxPages_def)
  obtain xs where xs: "forEachPart [] (split_on 44 (trim value)) = Some xs"
    and sel: "selectedPages s' =
      sort (finiteValues (filter (\<lambda>page. js_le (Fin 1) page \<and> js_le page (Fin n)) xs))"
    using assms(4) False
    by (auto simp: parsePageInput_def Let_def m updateTimeEstimate_selectedPages
        split: option.splits)
  have "distinct xs"
    using xs by (rule forEachPart_distinct) simp
  then have "distinct (selectedPages s')"
    by (simp add: sel distinct_finiteValues)
  moreover have "sorted (selectedPages s')"
    by (simp add: sel)
  moreover have "set (selectedPages s') \<subseteq> {1..n}"
    by (auto simp: sel set_finiteValues)
  ultimately show ?thesis
    by (simp add: strict_sorted_iff)
qed

lemma doubleOfInt_exact_le:
  assumes "\<bar>i\<bar> \<le> 9007199254740992"
  shows "doubleOfInt i = Fin i"
proof (cases "\<bar>i\<bar> = 9007199254740992")
  case True
  then have "i = 9007199254740992 \<or> i = - 9007199254740992"
    by arith
  then show ?thesis
    using below_overflow
    by (auto simp: doubleOfInt_def doubleOfNat_def roundToDouble_two_53)
next
  case False
  then have "\<bar>i\<bar> < 2 ^ 53"
    using assms by simp
  then show ?thesis
    by (rule doubleOfInt_exact)
qed

lemma rangeLoop_exact:
  assumes "- 9007199254740992 \<le> a" and "b < 9007199254740992"
  shows "rangeLoop (Fin a) (Fin b) acc = Some (foldl pushNew acc (map Fin [a..b]))"
  using assms
proof (induction "nat (b - a + 1)" arbitrary: a acc)
  case 0
  then have "b < a"
    by simp
  then show ?case
    by (subst rangeLoop.simps) simp
next
  case (Suc k)
  then have ab: "a \<le> b"
    by simp
  have k: "k = nat (b - (a + 1) + 1)"
    using Suc.hyps(2) by simp
  have lo: "- 9007199254740992 \<le> a + 1"
    using Suc.prems(1) by simp
  have "\<bar>a + 1\<bar> \<le> 9007199254740992"
    using Suc.prems ab by simp
  then have inc: "doubleOfInt (a + 1) = Fin (a + 1)"
    by (rule doubleOfInt_exact_le)
  have "rangeLoop (Fin a) (Fin b) acc = rangeLoop (Fin (a + 1)) (Fin b) (pushNew acc (Fin a))"
    using ab by (subst rangeLoop.simps) (simp add: inc)
  also have "\<dots> = Some (foldl pushNew (pushNew acc (Fin a)) (map Fin [a + 1..b]))"
    using k lo Suc.prems(2) by (rule Suc.hyps(1))
  also have "foldl pushNew (pushNew acc (Fin a)) (map Fin [a + 1..b]) =
      foldl pushNew acc (map Fin [a..b])"
    using ab by (simp add: upto_rec1 [of a b])
  finally show ?case .
qed

lemma rangeLoop_returns:
  assumes "\<bar>a\<bar> < 9007199254740992" and "\<bar>b\<bar> < 9007199254740992"
  shows "\<exists>ys. rangeLoop (Fin a) (Fin b) acc = Some ys"
proof -
  have "rangeLoop (Fin a) (Fin b) acc = Some (foldl pushNew acc (map Fin [a..b]))"
    using assms by (intro rangeLoop_exact) simp_all
  then show ?thesis
    by simp
qed

lemma parsePart_returns:
  assumes "\<forall>piece \<in> set (split_on 45 (trim part)). \<forall>v. parseInt (trim piece) = Some v \<longrightarrow>
             (\<exists>i. v = Fin i \<and> \<bar>i\<bar> < 9007199254740992)"
  shows "\<exists>ys. parsePart acc part = Some ys"
proof (cases "45 \<in> set (trim part)")
  case False
  then show ?thesis
    by (simp add: parsePart_def Let_def split: option.splits)
next
  case True
  have range: "\<exists>ys. rangeLoop start end' acc = Some ys"
    if sp: "split_on 45 (trim part) = [r0, r1]" and p0: "parseInt (trim r0) = Some start"
      and p1: "parseInt (trim r1) = Some end'" for r0 r1 start end'
  proof -
    obtain a where a: "start = Fin a" "\<bar>a\<bar> < 9007199254740992"
      using assms sp p0 by auto
    obtain b where b: "end' = Fin b" "\<bar>b\<bar> < 9007199254740992"
      using assms sp p1 by auto
    show ?thesis
      unfolding a(1) b(1) using a(2) b(2) by (rule rangeLoop_returns)
  qed
  show ?thesis
    using True range
    by (auto simp: parsePart_def Let_def split: list.splits option.splits)
qed

lemma forEachPart_returns:
  assumes "\<forall>part \<in> set parts. \<forall>piece \<in> set (split_on 45 (trim part)).
             \<forall>v. parseInt (trim piece) = Some v \<longrightarrow> (\<exists>i. v = Fin i \<and> \<bar>i\<bar> < 9007199254740992)"
  shows "\<exists>ys. forEachPart acc parts = Some ys"
  using assms
proof (induction parts arbitrary: acc)
  case Nil
  then show ?case by simp
next
  case (Cons part parts)
  have "\<exists>ys. parsePart acc part = Some ys"
    using Cons.prems by (intro parsePart_returns) simp
  then obtain ys where ys: "parsePart acc part = Some ys"
    by blast
  have "\<exists>zs. forEachPart ys parts = Some zs"
    using Cons.prems by (intro Cons.IH) simp
  then show ?case
    by (simp add: ys)
qed

lemma parsePageInput_returns:
  assumes "\<forall>part \<in> set (split_on 44 (trim value)). \<forall>piece \<in> set (split_on 45 (trim part)).
             \<forall>v. parseInt (trim piece) = Some v \<longrightarrow> (\<exists>i. v = Fin i \<and> \<bar>i\<bar> < 9007199254740992)"
  shows "\<exists>s'. parsePageInput value s = Some s'"
proof -
  obtain ys where "forEachPart [] (split_on 44 (trim value)) = Some ys"
    using forEachPart_returns [OF assms] by blast
  then show ?thesis
    by (simp add: parsePageInput_def Let_def)
qed

lemma parsePageInput_example:
  "\<exists>s'. parsePageInput (utf16 '' 1,3,5-8, 8-5,x,12,7 '') three_selected = Some s'
        \<and> selectedPages s' = [1, 3, 5, 6, 7, 8]"
proof -
  have t: "trim (utf16 '' 1,3,5-8, 8-5,x,12,7 '') \<noteq> []"
    by (simp add: trim_def utf16_def isWhiteSpace_def)
  have f: "forEachPart [] (split_on 44 (trim (utf16 '' 1,3,5-8, 8-5,x,12,7 ''))) =
      Some [Fin 1, Fin 3, Fin 5, Fin 6, Fin 7, Fin 8, Fin 12]"
    using below_overflow
    by (simp add: utf16_def trim_def isWhiteSpace_def parsePart_def parseInt_def
        radixDigit_def pushNew_def rangeLoop_exact doubleOfInt_def doubleOfNat_def
        roundToDouble_def Let_def)
  have m: "maxPages three_selected = 10"
    by (simp add: maxPages_def three_selected_def loaded_session_def example_info_def)
  show ?thesis
    using t
    by (simp add: parsePageInput_def Let_def f m updateTimeEstimate_selectedPages)
qed

subsection \<open>Submitting without a declared page count\<close>

lemma undeclared_parse:
  "parsePageInput (utf16 ''1,2'') undeclared_session =
     Some (undeclared_session\<lparr>selectedPages := [1], timeEstimate := Some ''5s''\<rparr>)"
proof -
  have t: "trim (utf16 ''1,2'') = utf16 ''1,2''"
    by (simp add: trim_def utf16_def isWhiteSpace_def)
  have f: "forEachPart [] (split_on 44 (utf16 ''1,2'')) = Some [Fin 1, Fin 2]"
    by (simp add: utf16_def trim_def isWhiteSpace_def parsePart_def parseInt_def
        radixDigit_def pushNew_def doubleOfInt_exact_le Let_def)
  have n: "utf16 ''1,2'' \<noteq> []"
    by (simp add: utf16_def)
  show ?thesis
    using n
    by (simp add: parsePageInput_def Let_def t f maxPages_def undeclared_info_def
        updateTimeEstimate_def undeclared_session_def initial_session_def Math_round_def
        numberToString_def char_of_eq_iff take_bit_eq_mod)
qed

text \<open>
  Claim C4 fails on the code when the upload response declares no page count. The code
  then counts one page (\<open>pages || 1\<close>: one icon is rendered and the input "1,2" is
  filtered to page 1), so selecting page 1 selects all pages; yet translateFileContent
  compares the selection's length with the undeclared \<open>currentFileInfo.pages\<close> itself,
  finds them different and sends the pages field.
\<close>

theorem translateFileContent_pages_sent_without_declared_count:
  "maxPages undeclared_session = 1
   \<and> parsePageInput (utf16 ''1,2'') undeclared_session =
       Some (undeclared_session\<lparr>selectedPages := [1], timeEstimate := Some ''5s''\<rparr>)
   \<and> translateFileContent (utf16 ''French'')
         (undeclared_session\<lparr>selectedPages := [1], timeEstimate := Some ''5s''\<rparr>) =
       Returned (undeclared_session
         \<lparr>selectedPages := [1], timeEstimate := Some ''5s'',
          notifications := [(Literal ''Starting file translation with Google Gemini 2.5 Flash... This may take a few minutes depending on the number of pages.'', Success)],
          requests := [\<lparr>req_method = ''POST'',
                        req_url = utf16 ''http://127.0.0.1:8000/api/translate-pdf/'',
                        req_timeout = 300000,
                        req_body = [(''file'', FileValue example_pdf),
                                    (''target_language'', TextValue (utf16 ''French'')),
                                    (''service_name'', TextValue (utf16 ''gemini'')),
                                    (''pages'', TextValue (utf16 ''1''))]\<rparr>],
          translateBtnLoading := True\<rparr>)"
proof -
  have m: "maxPages undeclared_session = 1"
    by (simp add: maxPages_def undeclared_session_def undeclared_info_def)
  have t: "translateFileContent (utf16 ''French'')
         (undeclared_session\<lparr>selectedPages := [1], timeEstimate := Some ''5s''\<rparr>) =
       Returned (undeclared_session
         \<lparr>selectedPages := [1], timeEstimate := Some ''5s'',
          notifications := [(Literal ''Starting file translation with Google Gemini 2.5 Flash... This may take a few minutes depending on the number of pages.'', Success)],
          requests := [\<lparr>req_method = ''POST'',
                        req_url = utf16 ''http://127.0.0.1:8000/api/translate-pdf/'',
                        req_timeout = 300000,
                        req_body = [(''file'', FileValue example_pdf),
                                    (''target_language'', TextValue (utf16 ''French'')),
                                    (''service_name'', TextValue (utf16 ''gemini'')),
                                    (''pages'', TextValue (utf16 ''1''))]\<rparr>],
          translateBtnLoading := True\<rparr>)"
    by (simp add: undeclared_session_def initial_session_def translateFileContent_def
        showNotification_def undeclared_info_def numberToString_def utf16_def)
  show ?thesis
    using m undeclared_parse t by simp
qed

section \<open>The duration estimate\<close>

lemma half_up: "\<lfloor>(of_int k :: rat) / 2 + 1 / 2\<rfloor> = (k + 1) div 2"
proof -
  have "(of_int k :: rat) / 2 + 1 / 2 = of_int (k + 1) / of_int 2"
    by (simp add: add_divide_distrib)
  then show ?thesis
    by (simp only: floor_divide_of_int_eq)
qed

lemma half_ceiling: "\<lceil>(of_int k :: rat) / 2\<rceil> = (k + 1) div 2"
proof -
  have "- ((of_int k :: rat) / 2) = of_int (- k) / of_int 2"
    by simp
  then have "\<lfloor>- ((of_int k :: rat) / 2)\<rfloor> = (- k) div 2"
    by (simp only: floor_divide_of_int_eq)
  then have "\<lceil>(of_int k :: rat) / 2\<rceil> = - ((- k) div 2)"
    by (simp add: ceiling_def)
  also have "\<dots> = (k + 1) div 2"
    by presburger
  finally show ?thesis .
qed

lemma total_as_half: "of_nat n * (9 / 2 :: rat) = of_int (9 * int n) / 2"
  by simp

lemma minutes_eq: "\<lfloor>(of_int k :: rat) / 2 / 60\<rfloor> = k div 120"
proof -
  have "(of_int k :: rat) / 2 / 60 = of_int k / of_int 120"
    by simp
  then show ?thesis
    by (simp only: floor_divide_of_int_eq)
qed

lemma js_rem_60: "0 \<le> k \<Longrightarrow> js_rem ((of_int k :: rat) / 2) 60 = of_int (k mod 120) / 2"
proof -
  assume k: "0 \<le> k"
  have nn: "\<not> (of_int k :: rat) / 2 / 60 < 0"
    using k by simp
  have "js_rem ((of_int k :: rat) / 2) 60 = of_int k / 2 - 60 * of_int (k div 120)"
    using nn by (simp only: js_rem_def minutes_eq if_False)
  also have "\<dots> = of_int (k - 120 * (k div 120)) / 2"
    by (simp add: diff_divide_distrib)
  also have "k - 120 * (k div 120) = k mod 120"
    by (simp add: minus_mult_div_eq_mod)
  finally show ?thesis .
qed

lemma nine_split:
  fixes m :: int
  assumes "0 \<le> m"
  obtains q r where "9 * m = 120 * q + r" and "0 \<le> r" and "r + 1 < 120" and "0 \<le> q"
proof -
  define r where "r = 9 * m mod 120"
  define q where "q = 9 * m div 120"
  have e: "9 * m = 120 * q + r"
    unfolding q_def r_def by (rule mult_div_mod_eq [symmetric])
  have r0: "0 \<le> r" and r1: "r < 120"
    by (simp_all add: r_def)
  have "r mod 3 = 9 * m mod 3"
    unfolding r_def by (simp add: mod_mod_cancel)
  then have "r mod 3 = 0"
    by simp
  then have "r \<noteq> 119"
    by auto
  then have "r + 1 < 120"
    using r1 by simp
  moreover have "0 \<le> q"
    using assms by (simp add: q_def)
  ultimately show thesis
    using that e r0 by blast
qed

lemma half_split:
  fixes q r :: int
  shows "(120 * q + r + 1) div 2 = 60 * q + (r + 1) div 2"
  by simp

lemma nine_arith:
  fixes m :: int
  assumes "0 \<le> m"
  shows "(9 * m + 1) div 2 div 60 = 9 * m div 120"
    and "(9 * m + 1) div 2 mod 60 = (9 * m mod 120 + 1) div 2"
    and "(9 * m + 1) div 2 < 60 \<longleftrightarrow> 9 * m < 120"
proof -
  obtain q r where e: "9 * m = 120 * q + r" and r0: "0 \<le> r" and r1: "r + 1 < 120"
    and q0: "0 \<le> q"
    using assms by (rule nine_split)
  define h where "h = (r + 1) div 2"
  have h0: "0 \<le> h" and h1: "h < 60"
    using r0 r1 by (simp_all add: h_def)
  have hs: "(9 * m + 1) div 2 = 60 * q + h"
    unfolding e h_def by (rule half_split)
  have d: "9 * m div 120 = q" and md: "9 * m mod 120 = r"
    using r0 r1 by (simp_all add: e)
  show "(9 * m + 1) div 2 div 60 = 9 * m div 120"
    using h0 h1 by (simp add: hs d)
  show "(9 * m + 1) div 2 mod 60 = (9 * m mod 120 + 1) div 2"
    using h0 h1 by (simp add: hs md h_def)
  show "(9 * m + 1) div 2 < 60 \<longleftrightarrow> 9 * m < 120"
  proof
    assume "(9 * m + 1) div 2 < 60"
    then have "60 * q + h < 60"
      by (simp only: hs)
    then have "q = 0"
      using q0 h0 by simp
    then show "9 * m < 120"
      using r1 e by simp
  next
    assume "9 * m < 120"
    then have "q = 0"
      using q0 r0 e by simp
    then show "(9 * m + 1) div 2 < 60"
      using h1 by (simp add: hs)
  qed
qed

text \<open>
  Claim C6. When the timeEstimate element exists, updateTimeEstimate writes the text the
  specification describes: the sentinel for an empty selection, otherwise the ceiling of
  4.5 seconds per page as "Ns" below 60 seconds and as "Mm Ss" from 60 seconds on. The
  code rounds half up and splits the unrounded total; on multiples of 4.5 that is the
  same text. Ten pages give "45s".
\<close>

theorem updateTimeEstimate_estimateDuration:
  assumes "timeEstimate s \<noteq> None"
  shows "timeEstimate (updateTimeEstimate selection s) = Some (estimateDuration_spec selection)"
proof (cases "selection = []")
  case True
  then show ?thesis
    using assms by (auto simp: updateTimeEstimate_def estimateDuration_spec_def)
next
  case False
  define m where "m = int (length selection)"
  have m0: "0 \<le> m"
    by (simp add: m_def)
  have t: "of_nat (length selection) * (9 / 2 :: rat) = of_int (9 * m) / 2"
    unfolding m_def by (rule total_as_half)
  have lt: "(of_int (9 * m) :: rat) / 2 < 60 \<longleftrightarrow> 9 * m < 120"
  proof -
    have "(of_int (9 * m) :: rat) / 2 < 60 \<longleftrightarrow> (of_int (9 * m) :: rat) < of_int 120"
      by (simp add: field_simps)
    then show ?thesis
      by (simp only: of_int_less_iff)
  qed
  have r: "Math_round (of_int (9 * m) / 2) = (9 * m + 1) div 2"
    by (simp only: Math_round_def half_up)
  have c: "\<lceil>(of_int (9 * m) :: rat) / 2\<rceil> = (9 * m + 1) div 2"
    by (rule half_ceiling)
  have mi: "Math_floor (of_int (9 * m) / 2 / 60) = 9 * m div 120"
    by (simp only: Math_floor_def minutes_eq)
  have se: "Math_round (js_rem (of_int (9 * m) / 2) 60) = (9 * m mod 120 + 1) div 2"
    using m0 by (simp only: js_rem_60 Math_round_def half_up) 
  have code: "timeEstimate (updateTimeEstimate selection s) =
      Some (if 9 * m < 120 then numberToString ((9 * m + 1) div 2) @ ''s''
            else numberToString (9 * m div 120) @ ''m '' @
                 numberToString ((9 * m mod 120 + 1) div 2) @ ''s'')"
    using assms False
    by (auto simp only: updateTimeEstimate_def Let_def t lt r mi se length_0_conv
        split: option.splits) simp_all
  have spec: "estimateDuration_spec selection =
      (if 9 * m < 120 then numberToString ((9 * m + 1) div 2) @ ''s''
       else numberToString (9 * m div 120) @ ''m '' @
            numberToString ((9 * m mod 120 + 1) div 2) @ ''s'')"
    using False
    by (simp only: estimateDuration_spec_def Let_def t c nine_arith [OF m0] if_False)
  show ?thesis
    by (simp only: code spec)
qed

theorem updateTimeEstimate_estimateDuration_witness:
  "timeEstimate loaded_session \<noteq> None
   \<and> timeEstimate (updateTimeEstimate [] loaded_session) = Some ''--''
   \<and> timeEstimate (updateTimeEstimate [1, 2, 3, 4, 5, 6, 7, 8, 9, 10] loaded_session) =
       Some ''45s''
   \<and> timeEstimate (updateTimeEstimate [1, 2, 3, 4, 5, 6, 7, 8, 9, 10, 11, 12, 13, 14]
         loaded_session) = Some ''1m 3s''"
proof -
  have h: "timeEstimate loaded_session \<noteq> None"
    by (simp add: loaded_session_fields)
  have e0: "estimateDuration_spec [] = ''--''"
    by (simp add: estimateDuration_spec_def)
  have e10: "estimateDuration_spec [1, 2, 3, 4, 5, 6, 7, 8, 9, 10] = ''45s''"
    by (simp add: estimateDuration_spec_def numberToString_def char_of_eq_iff take_bit_eq_mod)
  have e14: "estimateDuration_spec [1, 2, 3, 4, 5, 6, 7, 8, 9, 10, 11, 12, 13, 14] = ''1m 3s''"
    by (simp add: estimateDuration_spec_def numberToString_def char_of_eq_iff take_bit_eq_mod)
  show ?thesis
    using h updateTimeEstimate_estimateDuration [OF h, of "[]"]
      updateTimeEstimate_estimateDuration [OF h, of "[1, 2, 3, 4, 5, 6, 7, 8, 9, 10]"]
      updateTimeEstimate_estimateDuration [OF h,
        of "[1, 2, 3, 4, 5, 6, 7, 8, 9, 10, 11, 12, 13, 14]"]
    by (simp add: e0 e10 e14)
qed

end
